theory Spec2Isabelle
  imports Complex_Main
begin

section \<open>The event manager: data model\<close>

text \<open>
  This theory embeds \<^verbatim>\<open>EventManager\<close> of
  \<^verbatim>\<open>omni/isaac/lab/managers/event_manager.py\<close>: term preparation, \<^verbatim>\<open>apply\<close>,
  \<^verbatim>\<open>get_term_cfg\<close> and \<^verbatim>\<open>set_term_cfg\<close>.

  Conventions of the embedding.
  \<^item> A one-dimensional tensor is a list; an index tensor is a \<open>nat list\<close>
    (negative, wrapping indices are not modelled).
  \<^item> Times are reals (the float rounding of the tensor library is not modelled).
  \<^item> The global step count is a Python integer, an \<open>int\<close>. The last-triggered-step buffer
    is a tensor of 32-bit signed integers: its entries are \<open>int\<close>s, arithmetic on it wraps
    around (\<open>wrap_int32\<close>), and writing into it a step count that does not fit
    (\<open>fits_int32\<close>) raises. Python integers beyond 64 bits, and a
    \<^verbatim>\<open>min_step_count_between_reset\<close> beyond 32 bits, are outside what the theorems cover.
  \<^item> The random generator is a stream \<open>rand :: nat \<Rightarrow> real\<close> of samples together with
    the position \<open>rng_pos\<close> of the next unused one; \<^verbatim>\<open>torch.rand(k)\<close> takes the next \<open>k\<close>.
  \<^item> A Python dictionary is an association list in insertion order.
  \<^item> An exception is a value; since the manager is mutated in place, a raising call
    returns the exception together with the state it leaves behind.
  \<^item> The term callables belong to the environment; calling one is recorded in \<open>calls\<close>,
    a warning of the logger in \<open>warnings\<close>.
\<close>

datatype error =
    ValueError string
  | TypeError string
  | IndexError
  | KeyError string
  | RuntimeError string

text \<open>
  The fields of \<^verbatim>\<open>EventTermCfg\<close> that the manager reads. The callable is an opaque
  name; \<open>func_is_class\<close> is the outcome of \<^verbatim>\<open>isinstance(term_cfg.func, ManagerTermBase)\<close>.
\<close>

record EventTermCfg =
  func :: string
  func_is_class :: bool
  params :: "string list"
  mode :: string
  interval_range_s :: "(real \<times> real) option"
  is_global_time :: bool
  min_step_count_between_reset :: int

text \<open>A value of the configuration: \<^verbatim>\<open>None\<close>, an \<^verbatim>\<open>EventTermCfg\<close>, or anything else.\<close>

datatype cfg_value = NoneCfg | TermCfg EventTermCfg | OtherCfg

type_synonym env_ids = "nat list option"

record EventManager =
  num_envs :: nat
  mode_term_names :: "(string \<times> string list) list"
  mode_term_cfgs :: "(string \<times> EventTermCfg list) list"
  mode_class_term_cfgs :: "(string \<times> EventTermCfg list) list"
  interval_term_time_left :: "real list list"
  reset_term_last_triggered_step_id :: "int list list"
  rng_pos :: nat
  warnings :: "string list"
  calls :: "(string \<times> env_ids \<times> string list) list"

section \<open>Tensors, dictionaries, random samples\<close>

text \<open>
  The range of \<^verbatim>\<open>torch.int32\<close>, and the value that 32-bit two's complement arithmetic
  leaves of an integer result.
\<close>

definition fits_int32 :: "int \<Rightarrow> bool" where
  "fits_int32 x \<longleftrightarrow> - 2147483648 \<le> x \<and> x < 2147483648"

definition wrap_int32 :: "int \<Rightarrow> int" where
  "wrap_int32 x = (x + 2147483648) mod 4294967296 - 2147483648"

text \<open>\<^verbatim>\<open>mask.nonzero().flatten()\<close>: the positions at which the mask holds, ascending.\<close>

definition nonzero :: "bool list \<Rightarrow> nat list" where
  "nonzero bs = filter (\<lambda>i. bs ! i) [0..<length bs]"

text \<open>\<^verbatim>\<open>t[ids]\<close> as a read; an index past the end raises.\<close>

definition index_select :: "'a list \<Rightarrow> nat list \<Rightarrow> error + 'a list" where
  "index_select t ids =
     (if list_all (\<lambda>i. i < length t) ids then Inr (map (\<lambda>i. t ! i) ids) else Inl IndexError)"

text \<open>\<^verbatim>\<open>t[ids] = vs\<close> with one value for each index, and \<^verbatim>\<open>t[ids] = v\<close> with a scalar.\<close>

definition index_put :: "'a list \<Rightarrow> nat list \<Rightarrow> 'a list \<Rightarrow> 'a list" where
  "index_put t ids vs = fold (\<lambda>(i, v) acc. acc[i := v]) (zip ids vs) t"

definition index_fill :: "'a list \<Rightarrow> nat list \<Rightarrow> 'a \<Rightarrow> 'a list" where
  "index_fill t ids v = fold (\<lambda>i acc. acc[i := v]) ids t"

text \<open>\<^verbatim>\<open>torch.rand(k) * (upper - lower) + lower\<close>, drawn at position \<open>p\<close> of the stream.\<close>

definition sample_interval :: "(nat \<Rightarrow> real) \<Rightarrow> nat \<Rightarrow> nat \<Rightarrow> real \<Rightarrow> real \<Rightarrow> real list" where
  "sample_interval rand p k lower upper =
     map (\<lambda>j. rand (p + j) * (upper - lower) + lower) [0..<k]"

text \<open>\<^verbatim>\<open>d[k].append(v)\<close> and \<^verbatim>\<open>d[k] = v\<close> for a key that is present.\<close>

definition dict_append :: "('k \<times> 'v list) list \<Rightarrow> 'k \<Rightarrow> 'v \<Rightarrow> ('k \<times> 'v list) list" where
  "dict_append d k v = map (\<lambda>(k', vs). if k' = k then (k', vs @ [v]) else (k', vs)) d"

definition dict_set :: "('k \<times> 'v) list \<Rightarrow> 'k \<Rightarrow> 'v \<Rightarrow> ('k \<times> 'v) list" where
  "dict_set d k v = map (\<lambda>(k', w). if k' = k then (k', v) else (k', w)) d"

text \<open>\<^verbatim>\<open>terms.index(term_name)\<close>, used only under \<^verbatim>\<open>term_name in terms\<close>.\<close>

fun list_index :: "'a list \<Rightarrow> 'a \<Rightarrow> nat" where
  "list_index [] x = 0"
| "list_index (y # ys) x = (if y = x then 0 else Suc (list_index ys x))"

section \<open>Term preparation\<close>

definition empty_manager :: "nat \<Rightarrow> EventManager" where
  "empty_manager n =
     \<lparr>num_envs = n, mode_term_names = [], mode_term_cfgs = [], mode_class_term_cfgs = [],
      interval_term_time_left = [], reset_term_last_triggered_step_id = [],
      rng_pos = 0, warnings = [], calls = []\<rparr>"

definition add_mode :: "string \<Rightarrow> EventManager \<Rightarrow> EventManager" where
  "add_mode md st =
     (if md \<in> set (map fst (mode_term_names st)) then st
      else st\<lparr>mode_term_names := mode_term_names st @ [(md, [])],
              mode_term_cfgs := mode_term_cfgs st @ [(md, [])],
              mode_class_term_cfgs := mode_class_term_cfgs st @ [(md, [])]\<rparr>)"

definition add_term :: "string \<Rightarrow> EventTermCfg \<Rightarrow> EventManager \<Rightarrow> EventManager" where
  "add_term term_name t st =
     (let st1 = st\<lparr>mode_term_names := dict_append (mode_term_names st) (mode t) term_name,
                    mode_term_cfgs := dict_append (mode_term_cfgs st) (mode t) t\<rparr>
      in if func_is_class t
         then st1\<lparr>mode_class_term_cfgs := dict_append (mode_class_term_cfgs st1) (mode t) t\<rparr>
         else st1)"

text \<open>The warning of lines 298 to 302.\<close>

definition warn_min_step_count :: "string \<Rightarrow> EventTermCfg \<Rightarrow> EventManager \<Rightarrow> EventManager" where
  "warn_min_step_count term_name t st =
     (if mode t \<noteq> ''reset'' \<and> min_step_count_between_reset t \<noteq> 0
      then st\<lparr>warnings := warnings st @
             [''Event term '' @ term_name @
              '' has min_step_count_between_reset set to a non-zero value but the mode is not reset.'']\<rparr>
      else st)"

text \<open>
  The body of the loop of \<^verbatim>\<open>_prepare_terms\<close> for an \<^verbatim>\<open>EventTermCfg\<close>.
  \<^verbatim>\<open>_resolve_common_term_cfg\<close> belongs to the base class, which is not part of the
  sources at hand: it is the parameter \<open>resolve\<close>, which either raises or returns.
\<close>

definition prepare_term ::
  "(nat \<Rightarrow> real) \<Rightarrow> (string \<Rightarrow> EventTermCfg \<Rightarrow> error option) \<Rightarrow> string \<Rightarrow> EventTermCfg
     \<Rightarrow> EventManager \<Rightarrow> error + EventManager" where
  "prepare_term rand resolve term_name t st =
     (let st1 = warn_min_step_count term_name t st
      in case resolve term_name t of
           Some err \<Rightarrow> Inl err
         | None \<Rightarrow>
             (let st2 = add_term term_name t (add_mode (mode t) st1)
              in if mode t = ''interval'' then
                   (case interval_range_s t of
                      None \<Rightarrow> Inl (ValueError (''Event term '' @ term_name @
                                 '' has mode interval but interval_range_s is not specified.''))
                    | Some (lower, upper) \<Rightarrow>
                        if is_global_time t then
                          Inr (st2\<lparr>interval_term_time_left := interval_term_time_left st2 @
                                     [sample_interval rand (rng_pos st2) 1 lower upper],
                                   rng_pos := rng_pos st2 + 1\<rparr>)
                        else
                          Inr (st2\<lparr>interval_term_time_left := interval_term_time_left st2 @
                                     [sample_interval rand (rng_pos st2) (num_envs st2) lower upper],
                                   rng_pos := rng_pos st2 + num_envs st2\<rparr>))
                 else if mode t = ''reset'' then
                   (if min_step_count_between_reset t < 0 then
                      Inl (ValueError (''Event term '' @ term_name @
                             '' has mode reset but min_step_count_between_reset is negative.''))
                    else
                      Inr (st2\<lparr>reset_term_last_triggered_step_id :=
                                 reset_term_last_triggered_step_id st2 @
                                   [replicate (num_envs st2) 0]\<rparr>))
                 else Inr st2))"

fun prepare_loop ::
  "(nat \<Rightarrow> real) \<Rightarrow> (string \<Rightarrow> EventTermCfg \<Rightarrow> error option) \<Rightarrow> (string \<times> cfg_value) list
     \<Rightarrow> EventManager \<Rightarrow> error + EventManager" where
  "prepare_loop rand resolve [] st = Inr st"
| "prepare_loop rand resolve ((term_name, NoneCfg) # items) st =
     prepare_loop rand resolve items st"
| "prepare_loop rand resolve ((term_name, OtherCfg) # items) st =
     Inl (TypeError (''Configuration for the term '' @ term_name @ '' is not of type EventTermCfg.''))"
| "prepare_loop rand resolve ((term_name, TermCfg t) # items) st =
     (case prepare_term rand resolve term_name t st of
        Inl err \<Rightarrow> Inl err
      | Inr st' \<Rightarrow> prepare_loop rand resolve items st')"

text \<open>
  \<^verbatim>\<open>_prepare_terms\<close>, run by the constructor on the items of the configuration (those of
  the dictionary, or of the object's \<^verbatim>\<open>__dict__\<close>) for an environment with \<open>n\<close> instances.
\<close>

definition prepare_terms ::
  "(nat \<Rightarrow> real) \<Rightarrow> (string \<Rightarrow> EventTermCfg \<Rightarrow> error option) \<Rightarrow> nat \<Rightarrow> (string \<times> cfg_value) list
     \<Rightarrow> error + EventManager" where
  "prepare_terms rand resolve n cfg_items = prepare_loop rand resolve cfg_items (empty_manager n)"

text \<open>The property \<^verbatim>\<open>active_terms\<close>.\<close>

definition active_terms :: "EventManager \<Rightarrow> (string \<times> string list) list" where
  "active_terms st = mode_term_names st"

section \<open>Applying the terms of a mode\<close>

text \<open>
  What the gating code of one iteration decides: it raises, it skips the term
  (\<^verbatim>\<open>continue\<close>), or it goes on to call the term. Each carries the state left behind, and
  the last two the value that the variable \<^verbatim>\<open>env_ids\<close> now has.
\<close>

datatype gate =
    Raise error EventManager
  | Skip env_ids EventManager
  | Fire env_ids EventManager

text \<open>The branch \<^verbatim>\<open>mode == "interval"\<close> of the loop body (lines 170 to 192).\<close>

definition gate_interval ::
  "(nat \<Rightarrow> real) \<Rightarrow> real \<Rightarrow> nat \<Rightarrow> EventTermCfg \<Rightarrow> env_ids \<Rightarrow> EventManager \<Rightarrow> gate" where
  "gate_interval rand dt index t env_ids st =
     (if index < length (interval_term_time_left st) then
        (let time_left = map (\<lambda>x. x - dt) (interval_term_time_left st ! index);
             st1 = st\<lparr>interval_term_time_left := (interval_term_time_left st)[index := time_left]\<rparr>
         in if is_global_time t then
              (case time_left of
                 [x] \<Rightarrow>
                   if x \<le> 0 then
                     (case interval_range_s t of
                        None \<Rightarrow> Raise (TypeError ''cannot unpack non-iterable NoneType object'') st1
                      | Some (lower, upper) \<Rightarrow>
                          Fire env_ids
                            (st1\<lparr>interval_term_time_left := (interval_term_time_left st1)
                                    [index := sample_interval rand (rng_pos st1) 1 lower upper],
                                  rng_pos := rng_pos st1 + 1\<rparr>))
                   else Skip env_ids st1
               | _ \<Rightarrow> Raise (RuntimeError ''Boolean value of Tensor is ambiguous'') st1)
            else
              (let env_ids' = nonzero (map (\<lambda>x. x \<le> 0) time_left)
               in if length env_ids' > 0 then
                    (case interval_range_s t of
                       None \<Rightarrow> Raise (TypeError ''cannot unpack non-iterable NoneType object'') st1
                     | Some (lower, upper) \<Rightarrow>
                         Fire (Some env_ids')
                           (st1\<lparr>interval_term_time_left := (interval_term_time_left st1)
                                   [index := index_put time_left env_ids'
                                      (sample_interval rand (rng_pos st1) (length env_ids') lower upper)],
                                 rng_pos := rng_pos st1 + length env_ids'\<rparr>))
                  else Skip (Some env_ids') st1))
      else Raise IndexError st)"

text \<open>
  The branch \<^verbatim>\<open>mode == "reset"\<close> of the loop body (lines 194 to 215). The buffer is an
  \<^verbatim>\<open>int32\<close> tensor (line 347), so
  \<^item> the subtraction of line 207 is 32-bit arithmetic and wraps around;
  \<^item> the assignments of lines 199 and 212 convert \<^verbatim>\<open>global_env_step_count\<close> to
    \<^verbatim>\<open>int32\<close> first and raise \<^verbatim>\<open>RuntimeError\<close>, writing nothing, when it does not fit;
  \<^item> the indexed assignment of line 212 writes position after position, so that at a
    position past the end it raises \<^verbatim>\<open>IndexError\<close> with the entries before it, which
    are all those in range, already stamped (\<open>xs[i := v]\<close> leaves \<open>xs\<close> as it is when
    \<open>i\<close> is past the end).
\<close>

definition gate_reset :: "int \<Rightarrow> nat \<Rightarrow> EventTermCfg \<Rightarrow> env_ids \<Rightarrow> EventManager \<Rightarrow> gate" where
  "gate_reset global_env_step_count index t env_ids st =
     (let min_step_count = min_step_count_between_reset t
      in if index < length (reset_term_last_triggered_step_id st) then
           (let last_reset_step = reset_term_last_triggered_step_id st ! index
            in if min_step_count = 0 then
                 (if fits_int32 global_env_step_count then
                    Fire env_ids
                      (st\<lparr>reset_term_last_triggered_step_id := (reset_term_last_triggered_step_id st)
                            [index := map (\<lambda>_. global_env_step_count) last_reset_step]\<rparr>)
                  else Raise (RuntimeError
                                ''value cannot be converted to type int32 without overflow'') st)
               else
                 (let steps_since_reset =
                        map (\<lambda>l. wrap_int32 (global_env_step_count - l)) last_reset_step
                  in case (case env_ids of
                             None \<Rightarrow> Inr steps_since_reset
                           | Some ids \<Rightarrow> index_select steps_since_reset ids) of
                       Inl err \<Rightarrow> Raise err st
                     | Inr selected \<Rightarrow>
                         (let env_ids' = nonzero (map (\<lambda>s. s \<ge> min_step_count) selected);
                              stamped = st\<lparr>reset_term_last_triggered_step_id :=
                                           (reset_term_last_triggered_step_id st)
                                             [index := index_fill last_reset_step env_ids'
                                                         global_env_step_count]\<rparr>
                          in if length env_ids' > 0 then
                               (if fits_int32 global_env_step_count then
                                  (if list_all (\<lambda>i. i < length last_reset_step) env_ids'
                                   then Fire (Some env_ids') stamped
                                   else Raise IndexError stamped)
                                else Raise (RuntimeError
                                       ''value cannot be converted to type int32 without overflow'') st)
                             else Skip (Some env_ids') st)))
         else Raise IndexError st)"

text \<open>
  The gating of one iteration. In the loop \<^verbatim>\<open>dt\<close> and \<^verbatim>\<open>global_env_step_count\<close> are
  present (\<^verbatim>\<open>apply\<close> has checked it); arithmetic on \<^verbatim>\<open>None\<close> would raise.
\<close>

definition gate_term ::
  "(nat \<Rightarrow> real) \<Rightarrow> string \<Rightarrow> real option \<Rightarrow> int option \<Rightarrow> nat \<Rightarrow> EventTermCfg \<Rightarrow> env_ids
     \<Rightarrow> EventManager \<Rightarrow> gate" where
  "gate_term rand md dt global_env_step_count index t env_ids st =
     (if md = ''interval'' then
        (case dt of
           None \<Rightarrow> Raise (TypeError ''unsupported operand type: NoneType'') st
         | Some d \<Rightarrow> gate_interval rand d index t env_ids st)
      else if md = ''reset'' then
        (case global_env_step_count of
           None \<Rightarrow> Raise (TypeError ''unsupported operand type: NoneType'') st
         | Some g \<Rightarrow> gate_reset g index t env_ids st)
      else Fire env_ids st)"

text \<open>\<^verbatim>\<open>term_cfg.func(self._env, env_ids, **term_cfg.params)\<close>.\<close>

definition call_term :: "EventTermCfg \<Rightarrow> env_ids \<Rightarrow> EventManager \<Rightarrow> EventManager" where
  "call_term t env_ids st = st\<lparr>calls := calls st @ [(func t, env_ids, params t)]\<rparr>"

text \<open>
  The loop over \<^verbatim>\<open>enumerate(self._mode_term_cfgs[mode])\<close>, from position \<open>index\<close> on.
  The variable \<^verbatim>\<open>env_ids\<close> is the one of the enclosing call: what one iteration assigns
  to it is what the next one reads.
\<close>

fun apply_terms ::
  "(nat \<Rightarrow> real) \<Rightarrow> string \<Rightarrow> real option \<Rightarrow> int option \<Rightarrow> EventTermCfg list \<Rightarrow> nat \<Rightarrow> env_ids
     \<Rightarrow> EventManager \<Rightarrow> error option \<times> EventManager" where
  "apply_terms rand md dt g [] index env_ids st = (None, st)"
| "apply_terms rand md dt g (t # ts) index env_ids st =
     (case gate_term rand md dt g index t env_ids st of
        Raise err st' \<Rightarrow> (Some err, st')
      | Skip env_ids' st' \<Rightarrow> apply_terms rand md dt g ts (Suc index) env_ids' st'
      | Fire env_ids' st' \<Rightarrow>
          apply_terms rand md dt g ts (Suc index) env_ids' (call_term t env_ids' st'))"

text \<open>
  \<^verbatim>\<open>EventManager.apply(mode, env_ids, dt, global_env_step_count)\<close>. The result is the
  exception raised, if any, and the manager afterwards.
\<close>

definition apply_mode ::
  "(nat \<Rightarrow> real) \<Rightarrow> EventManager \<Rightarrow> string \<Rightarrow> env_ids \<Rightarrow> real option \<Rightarrow> int option
     \<Rightarrow> error option \<times> EventManager" where
  "apply_mode rand st md env_ids dt global_env_step_count =
     (if md \<notin> set (map fst (mode_term_names st)) then
        (None, st\<lparr>warnings := warnings st @
                    [''Event mode '' @ md @ '' is not defined. Skipping event.'']\<rparr>)
      else if md = ''interval'' \<and> dt = None then
        (Some (ValueError (''Event mode '' @ md @ '' requires the time-step of the environment.'')), st)
      else if md = ''reset'' \<and> global_env_step_count = None then
        (Some (ValueError (''Event mode '' @ md @
                 '' requires the total number of environment steps to be provided.'')), st)
      else
        (case map_of (mode_term_cfgs st) md of
           None \<Rightarrow> (Some (KeyError md), st)
         | Some ts \<Rightarrow> apply_terms rand md dt global_env_step_count ts 0 env_ids st))"

section \<open>Term settings\<close>

text \<open>
  The search shared by \<^verbatim>\<open>set_term_cfg\<close> and \<^verbatim>\<open>get_term_cfg\<close>: the first mode whose
  list of names holds the name, and the name's first position in that list.
\<close>

fun find_term :: "(string \<times> string list) list \<Rightarrow> string \<Rightarrow> (string \<times> nat) option" where
  "find_term [] term_name = None"
| "find_term ((md, terms) # rest) term_name =
     (if term_name \<in> set terms then Some (md, list_index terms term_name)
      else find_term rest term_name)"

definition set_term_cfg :: "EventManager \<Rightarrow> string \<Rightarrow> EventTermCfg \<Rightarrow> error + EventManager" where
  "set_term_cfg st term_name cfg =
     (case find_term (mode_term_names st) term_name of
        None \<Rightarrow> Inl (ValueError (''Event term '' @ term_name @ '' not found.''))
      | Some (md, i) \<Rightarrow>
          (case map_of (mode_term_cfgs st) md of
             None \<Rightarrow> Inl (KeyError md)
           | Some cfgs \<Rightarrow>
               if i < length cfgs
               then Inr (st\<lparr>mode_term_cfgs := dict_set (mode_term_cfgs st) md (cfgs[i := cfg])\<rparr>)
               else Inl IndexError))"


section \<open>The two dictionaries of a manager\<close>

text \<open>
  \<^verbatim>\<open>_mode_term_names\<close> and \<^verbatim>\<open>_mode_term_cfgs\<close> are kept side by side: as dictionaries
  they have each key once, they have the same keys in the same order, and under each key
  a list of names and a list of configurations of the same length.
\<close>

definition aligned :: "EventManager \<Rightarrow> bool" where
  "aligned st \<longleftrightarrow>
     distinct (map fst (mode_term_names st)) \<and>
     map fst (mode_term_cfgs st) = map fst (mode_term_names st) \<and>
     map (\<lambda>(md, cfgs). length cfgs) (mode_term_cfgs st) =
       map (\<lambda>(md, terms). length terms) (mode_term_names st)"

text \<open>Every entry of the last-triggered-step buffers is a 32-bit value.\<close>

definition int32_buffers :: "EventManager \<Rightarrow> bool" where
  "int32_buffers st \<longleftrightarrow> list_all (list_all fits_int32) (reset_term_last_triggered_step_id st)"


text \<open>The entries of a configuration that are terms of a given mode.\<close>

definition is_term_of_mode :: "string \<Rightarrow> string \<times> cfg_value \<Rightarrow> bool" where
  "is_term_of_mode md item =
     (case snd item of TermCfg t \<Rightarrow> mode t = md | NoneCfg \<Rightarrow> False | OtherCfg \<Rightarrow> False)"

section \<open>Concrete inputs\<close>

text \<open>
  Inputs at which the functions above are evaluated below: a generator that always
  returns 0, a resolver that accepts every term, a reset term and an interval term, and
  the manager of three environments that holds the reset term alone.
\<close>

definition rand0 :: "nat \<Rightarrow> real" where
  "rand0 k = 0"

definition resolve_ok :: "string \<Rightarrow> EventTermCfg \<Rightarrow> error option" where
  "resolve_ok term_name t = None"

definition reset_term_example :: "int \<Rightarrow> EventTermCfg" where
  "reset_term_example m =
     \<lparr>func = ''reset_root_state'', func_is_class = False, params = [], mode = ''reset'',
      interval_range_s = None, is_global_time = False, min_step_count_between_reset = m\<rparr>"

definition interval_term_example :: "real \<Rightarrow> real \<Rightarrow> bool \<Rightarrow> EventTermCfg" where
  "interval_term_example lower upper global_time =
     \<lparr>func = ''push_robot'', func_is_class = False, params = [], mode = ''interval'',
      interval_range_s = Some (lower, upper), is_global_time = global_time,
      min_step_count_between_reset = 0\<rparr>"

definition reset_manager_example :: "int \<Rightarrow> EventManager" where
  "reset_manager_example m =
     \<lparr>num_envs = 3, mode_term_names = [(''reset'', [''reset_base''])],
      mode_term_cfgs = [(''reset'', [reset_term_example m])],
      mode_class_term_cfgs = [(''reset'', [])],
      interval_term_time_left = [], reset_term_last_triggered_step_id = [[0, 0, 0]],
      rng_pos = 0, warnings = [], calls = []\<rparr>"

text \<open>
  A manager of two environments with one term of each of the two built-in modes, the
  interval term timing each environment on its own.
\<close>

definition mixed_manager_example :: EventManager where
  "mixed_manager_example =
     \<lparr>num_envs = 2,
      mode_term_names = [(''interval'', [''push'']), (''reset'', [''reset_base''])],
      mode_term_cfgs = [(''interval'', [interval_term_example 1 1 False]),
                        (''reset'', [reset_term_example 10])],
      mode_class_term_cfgs = [(''interval'', []), (''reset'', [])],
      interval_term_time_left = [[1, 1 / 2]],
      reset_term_last_triggered_step_id = [[0, 0]],
      rng_pos = 2, warnings = [], calls = []\<rparr>"

text \<open>
  A manager of three environments with two reset terms: the first gated by ten steps, the
  second not gated. Environment 1 last triggered the first term at step 5.
\<close>

definition two_reset_manager_example :: EventManager where
  "two_reset_manager_example =
     \<lparr>num_envs = 3, mode_term_names = [(''reset'', [''reset_base'', ''reset_joints''])],
      mode_term_cfgs = [(''reset'', [reset_term_example 10,
                                    (reset_term_example 0)\<lparr>func := ''reset_joints''\<rparr>])],
      mode_class_term_cfgs = [(''reset'', [])],
      interval_term_time_left = [],
      reset_term_last_triggered_step_id = [[0, 5, 0], [0, 0, 0]],
      rng_pos = 0, warnings = [], calls = []\<rparr>"


definition one_second_manager_example :: EventManager where
  "one_second_manager_example =
     \<lparr>num_envs = 2, mode_term_names = [(''interval'', [''push''])],
      mode_term_cfgs = [(''interval'', [interval_term_example 1 1 True])],
      mode_class_term_cfgs = [(''interval'', [])],
      interval_term_time_left = [[1]], reset_term_last_triggered_step_id = [],
      rng_pos = 1, warnings = [], calls = []\<rparr>"

section \<open>Evaluation\<close>

lemmas prepare_defs = prepare_terms_def prepare_term_def warn_min_step_count_def
  empty_manager_def add_mode_def
  add_term_def dict_append_def sample_interval_def

lemmas apply_defs = apply_mode_def gate_term_def gate_reset_def gate_interval_def
  index_select_def nonzero_def index_fill_def index_put_def call_term_def sample_interval_def
  fits_int32_def wrap_int32_def

text \<open>The example manager is the one that preparation builds from its single term.\<close>

lemma reset_manager_example_prepared:
  "prepare_terms rand0 resolve_ok 3 [(''reset_base'', TermCfg (reset_term_example m))] =
     (if m < 0 then Inl (ValueError (''Event term '' @ ''reset_base'' @
                             '' has mode reset but min_step_count_between_reset is negative.''))
      else Inr (reset_manager_example m))"
  by (simp add: prepare_defs reset_term_example_def reset_manager_example_def resolve_ok_def
      numeral_3_eq_3)

section \<open>Modes without terms, and missing arguments\<close>

text \<open>
  Claim C6. When \<^verbatim>\<open>apply\<close> is called with a mode for which no term was configured
  (the mode is not a key of \<^verbatim>\<open>active_terms\<close>), it returns without raising, whatever the
  other arguments are, and the manager afterwards is the manager before with one more
  warning in the log: no term was called, and neither the interval time-left buffers nor
  the last-triggered-step buffers have changed.
\<close>

theorem apply_unconfigured_mode_noop:
  "md \<notin> set (map fst (active_terms st)) \<Longrightarrow>
     apply_mode rand st md env_ids dt g =
       (None, st\<lparr>warnings := warnings st @
                   [''Event mode '' @ md @ '' is not defined. Skipping event.'']\<rparr>)"
  by (simp add: apply_mode_def active_terms_def)

theorem apply_unconfigured_mode_noop_witness:
  "''interval'' \<notin> set (map fst (active_terms (reset_manager_example 10))) \<and>
   apply_mode rand0 (reset_manager_example 10) ''interval'' (Some [0]) None None =
     (None, (reset_manager_example 10)\<lparr>warnings := warnings (reset_manager_example 10) @
        [''Event mode '' @ ''interval'' @ '' is not defined. Skipping event.'']\<rparr>)"
  using apply_unconfigured_mode_noop
    [of "''interval''" "reset_manager_example 10" rand0 "Some [0]" None None]
  by (simp add: active_terms_def reset_manager_example_def)

text \<open>
  Claim C5 as stated fails: the test for an unconfigured mode comes first. A manager whose
  only term has mode \<^verbatim>\<open>"reset"\<close>, called with mode \<^verbatim>\<open>"interval"\<close> and no \<^verbatim>\<open>dt\<close>,
  raises nothing.
\<close>

theorem apply_missing_argument_counterexample:
  "fst (apply_mode rand0 (reset_manager_example 10) ''interval'' None None None) = None"
  by (simp add: apply_mode_def reset_manager_example_def)

text \<open>
  Claim C5, amended. When some term was configured with mode \<^verbatim>\<open>"interval"\<close>, a call
  with that mode and no \<^verbatim>\<open>dt\<close> raises \<^verbatim>\<open>ValueError\<close>; when some term was configured with
  mode \<^verbatim>\<open>"reset"\<close>, a call with that mode and no global step count raises
  \<^verbatim>\<open>ValueError\<close>. In both cases the manager is left exactly as it was: no term was
  called and no buffer has changed.
\<close>

theorem apply_missing_argument_raises:
  "(''interval'' \<in> set (map fst (active_terms st)) \<longrightarrow>
      apply_mode rand st ''interval'' env_ids None g =
        (Some (ValueError (''Event mode '' @ ''interval'' @
                 '' requires the time-step of the environment.'')), st)) \<and>
   (''reset'' \<in> set (map fst (active_terms st)) \<longrightarrow>
      apply_mode rand st ''reset'' env_ids dt None =
        (Some (ValueError (''Event mode '' @ ''reset'' @
                 '' requires the total number of environment steps to be provided.'')), st))"
  by (simp add: apply_mode_def active_terms_def)

theorem apply_missing_argument_raises_witness:
  "''interval'' \<in> set (map fst (active_terms mixed_manager_example)) \<and>
   apply_mode rand0 mixed_manager_example ''interval'' (Some [0]) None (Some 3) =
     (Some (ValueError (''Event mode '' @ ''interval'' @
              '' requires the time-step of the environment.'')), mixed_manager_example) \<and>
   ''reset'' \<in> set (map fst (active_terms mixed_manager_example)) \<and>
   apply_mode rand0 mixed_manager_example ''reset'' (Some [0]) (Some 1) None =
     (Some (ValueError (''Event mode '' @ ''reset'' @
              '' requires the total number of environment steps to be provided.'')),
      mixed_manager_example)"
  using apply_missing_argument_raises [of mixed_manager_example rand0 "Some [0]" "Some 3" "Some 1"]
  by (simp add: active_terms_def mixed_manager_example_def)

section \<open>Reset gating at concrete inputs\<close>

text \<open>
  Claim C1, evaluated. Three environments, one reset term with
  \<^verbatim>\<open>min_step_count_between_reset = 10\<close> that never fired, and a call for environment 2
  alone at global step 10. Environment 2 has 10 elapsed steps, so the claim has the term
  called for environment 2 and entry 2 stamped. The code selects
  \<^verbatim>\<open>steps_since_reset[env_ids]\<close>, a tensor with one entry, and takes the positions of
  that tensor that pass the test: position 0. It stamps entry 0 and calls the term for
  environment 0.
\<close>

theorem apply_reset_gating_positions:
  "apply_mode rand0 (reset_manager_example 10) ''reset'' (Some [2]) None (Some 10) =
     (None, (reset_manager_example 10)
              \<lparr>reset_term_last_triggered_step_id := [[10, 0, 0]],
               calls := [(''reset_root_state'', Some [0], [])]\<rparr>)"
  by (simp add: apply_defs reset_manager_example_def reset_term_example_def)

text \<open>
  Claim C4, evaluated. The same manager with \<^verbatim>\<open>min_step_count_between_reset = 0\<close>,
  called for environment 1 alone at global step 7. The term is called for environment 1,
  and the assignment to the slice \<^verbatim>\<open>[:]\<close> stamps all three entries, those of
  environments 0 and 2 included.
\<close>

theorem apply_reset_zero_stamps_all:
  "apply_mode rand0 (reset_manager_example 0) ''reset'' (Some [1]) None (Some 7) =
     (None, (reset_manager_example 0)
              \<lparr>reset_term_last_triggered_step_id := [[7, 7, 7]],
               calls := [(''reset_root_state'', Some [1], [])]\<rparr>)"
  by (simp add: apply_defs reset_manager_example_def reset_term_example_def)

section \<open>The dictionaries stay side by side\<close>

lemma aligned_cong:
  "mode_term_names st' = mode_term_names st \<Longrightarrow> mode_term_cfgs st' = mode_term_cfgs st \<Longrightarrow>
     aligned st' = aligned st"
  by (simp add: aligned_def)

lemma aligned_empty_manager: "aligned (empty_manager n)"
  by (simp add: aligned_def empty_manager_def)

lemma dict_append_keys: "map fst (dict_append d k v) = map fst d"
  by (induction d) (auto simp: dict_append_def)

lemma dict_set_keys: "map fst (dict_set d k v) = map fst d"
  by (induction d) (auto simp: dict_set_def)

lemma dict_append_lengths:
  "map fst a = map fst b \<Longrightarrow>
   map (\<lambda>(md, xs). length xs) a = map (\<lambda>(md, xs). length xs) b \<Longrightarrow>
   map (\<lambda>(md, xs). length xs) (dict_append a k v) =
     map (\<lambda>(md, xs). length xs) (dict_append b k w)"
proof (induction a arbitrary: b)
  case Nil
  then show ?case by (simp add: dict_append_def)
next
  case (Cons x a)
  then obtain y b' where b: "b = y # b'" by (cases b) auto
  with Cons.prems have "map fst a = map fst b'"
    and "map (\<lambda>(md, xs). length xs) a = map (\<lambda>(md, xs). length xs) b'"
    and "fst x = fst y" and "length (snd x) = length (snd y)"
    by (auto split: prod.splits)
  with Cons.IH [of b'] b show ?case
    by (cases x; cases y) (simp add: dict_append_def)
qed

lemma aligned_add_mode: "aligned st \<Longrightarrow> aligned (add_mode md st)"
  by (auto simp: aligned_def add_mode_def)

lemma aligned_add_term: "aligned st \<Longrightarrow> aligned (add_term term_name t st)"
  using dict_append_lengths [of "mode_term_cfgs st" "mode_term_names st" "mode t" t term_name]
  by (simp add: aligned_def add_term_def Let_def dict_append_keys)

lemma prepare_term_names_cfgs:
  assumes "prepare_term rand resolve term_name t st = Inr st'"
  shows "mode_term_names st' =
           mode_term_names (add_term term_name t (add_mode (mode t) (warn_min_step_count term_name t st)))"
    and "mode_term_cfgs st' =
           mode_term_cfgs (add_term term_name t (add_mode (mode t) (warn_min_step_count term_name t st)))"
  using assms unfolding prepare_term_def warn_min_step_count_def Let_def
  by (simp_all split: option.splits if_splits prod.splits; fastforce)+

lemma aligned_prepare_term:
  assumes "prepare_term rand resolve term_name t st = Inr st'" and "aligned st"
  shows "aligned st'"
proof -
  have "aligned (warn_min_step_count term_name t st)"
    using assms(2) by (simp add: aligned_def warn_min_step_count_def)
  then have "aligned (add_term term_name t (add_mode (mode t) (warn_min_step_count term_name t st)))"
    by (simp add: aligned_add_mode aligned_add_term)
  then show ?thesis
    using prepare_term_names_cfgs [OF assms(1)] by (simp add: aligned_def)
qed

lemma aligned_prepare_loop:
  "prepare_loop rand resolve items st = Inr st' \<Longrightarrow> aligned st \<Longrightarrow> aligned st'"
proof (induction rand resolve items st rule: prepare_loop.induct)
  case (4 rand resolve term_name t items st)
  then show ?case
    by (auto split: sum.splits dest: aligned_prepare_term)
qed auto

lemma prepare_terms_aligned:
  "prepare_terms rand resolve n cfg_items = Inr st \<Longrightarrow> aligned st"
  using aligned_prepare_loop [of rand resolve cfg_items "empty_manager n" st] aligned_empty_manager
  by (simp add: prepare_terms_def)

lemma dict_set_lengths:
  "map_of d k = Some xs \<Longrightarrow> length ys = length xs \<Longrightarrow> distinct (map fst d) \<Longrightarrow>
     map (\<lambda>(md, xs). length xs) (dict_set d k ys) = map (\<lambda>(md, xs). length xs) d"
proof (induction d)
  case Nil
  then show ?case by simp
next
  case (Cons a d)
  show ?case
  proof (cases "fst a = k")
    case True
    with Cons.prems have "k \<notin> fst ` set d" and "snd a = xs" by auto
    then have "dict_set d k ys = d"
      by (induction d) (auto simp: dict_set_def)
    with True Cons.prems \<open>snd a = xs\<close> show ?thesis
      by (cases a) (simp add: dict_set_def)
  next
    case False
    with Cons show ?thesis by (cases a) (auto simp: dict_set_def)
  qed
qed

lemma aligned_set_term_cfg:
  assumes "set_term_cfg st term_name cfg = Inr st'" and "aligned st"
  shows "aligned st'"
proof -
  from assms(1) obtain md i cfgs where
    m: "map_of (mode_term_cfgs st) md = Some cfgs" and
    st': "st' = st\<lparr>mode_term_cfgs := dict_set (mode_term_cfgs st) md (cfgs[i := cfg])\<rparr>"
    by (auto simp: set_term_cfg_def split: option.splits if_splits)
  from assms(2) have "distinct (map fst (mode_term_cfgs st))" by (simp add: aligned_def)
  with m have "map (\<lambda>(md, xs). length xs) (dict_set (mode_term_cfgs st) md (cfgs[i := cfg])) =
      map (\<lambda>(md, xs). length xs) (mode_term_cfgs st)"
    by (intro dict_set_lengths [of _ _ cfgs]) auto
  with assms(2) st' show ?thesis by (simp add: aligned_def dict_set_keys)
qed

lemma gate_interval_frame:
  "gate_interval rand dt index t env_ids st = Raise err st' \<or>
   gate_interval rand dt index t env_ids st = Skip e st' \<or>
   gate_interval rand dt index t env_ids st = Fire e st' \<Longrightarrow>
     mode_term_names st' = mode_term_names st \<and> mode_term_cfgs st' = mode_term_cfgs st"
  unfolding gate_interval_def Let_def
  by (auto split: if_splits list.splits option.splits prod.splits)

lemma gate_reset_frame:
  "gate_reset g index t env_ids st = Raise err st' \<or>
   gate_reset g index t env_ids st = Skip e st' \<or>
   gate_reset g index t env_ids st = Fire e st' \<Longrightarrow>
     mode_term_names st' = mode_term_names st \<and> mode_term_cfgs st' = mode_term_cfgs st"
  unfolding gate_reset_def Let_def
  by (auto split: if_splits sum.splits option.splits)

lemma gate_term_frame:
  "gate_term rand md dt g index t env_ids st = Raise err st' \<or>
   gate_term rand md dt g index t env_ids st = Skip e st' \<or>
   gate_term rand md dt g index t env_ids st = Fire e st' \<Longrightarrow>
     mode_term_names st' = mode_term_names st \<and> mode_term_cfgs st' = mode_term_cfgs st"
  unfolding gate_term_def
  using gate_interval_frame gate_reset_frame
  by (auto split: if_splits option.splits)

lemma apply_terms_frame:
  "apply_terms rand md dt g ts index env_ids st = (r, st') \<Longrightarrow>
     mode_term_names st' = mode_term_names st \<and> mode_term_cfgs st' = mode_term_cfgs st"
proof (induction ts arbitrary: index env_ids st)
  case Nil
  then show ?case by simp
next
  case (Cons t ts)
  show ?case
  proof (cases "gate_term rand md dt g index t env_ids st")
    case (Raise err s)
    with Cons.prems gate_term_frame [of rand md dt g index t env_ids st err s] show ?thesis
      by auto
  next
    case (Skip e s)
    with Cons.prems have "apply_terms rand md dt g ts (Suc index) e s = (r, st')" by simp
    from Cons.IH [OF this] gate_term_frame [of rand md dt g index t env_ids st _ s e] Skip
    show ?thesis by simp
  next
    case (Fire e s)
    with Cons.prems have "apply_terms rand md dt g ts (Suc index) e (call_term t e s) = (r, st')"
      by simp
    from Cons.IH [OF this] gate_term_frame [of rand md dt g index t env_ids st _ s e] Fire
    show ?thesis by (simp add: call_term_def)
  qed
qed

lemma aligned_apply_mode:
  "apply_mode rand st md env_ids dt g = (r, st') \<Longrightarrow> aligned st \<Longrightarrow> aligned st'"
  using apply_terms_frame [of rand md dt g _ 0 env_ids st r st']
  by (auto simp: apply_mode_def aligned_def split: if_splits option.splits)

section \<open>Getting and setting a term's configuration\<close>


lemma nth_list_index: "x \<in> set xs \<Longrightarrow> xs ! list_index xs x = x"
  by (induction xs) auto








section \<open>Configurations that preparation rejects\<close>

lemma prepare_loop_append:
  "prepare_loop rand resolve (xs @ ys) st =
     (case prepare_loop rand resolve xs st of
        Inl err \<Rightarrow> Inl err
      | Inr st' \<Rightarrow> prepare_loop rand resolve ys st')"
  by (induction rand resolve xs st rule: prepare_loop.induct) (auto split: sum.splits)

lemma prepare_term_rejects:
  "(mode t = ''interval'' \<and> interval_range_s t = None) \<or>
   (mode t = ''reset'' \<and> min_step_count_between_reset t < 0) \<Longrightarrow>
     \<exists>err. prepare_term rand resolve term_name t st = Inl err"
  by (auto simp: prepare_term_def Let_def split: option.splits)

lemma prepare_term_rejects_ValueError:
  "resolve term_name t = None \<Longrightarrow>
     (mode t = ''interval'' \<and> interval_range_s t = None \<longrightarrow>
        prepare_term rand resolve term_name t st =
          Inl (ValueError (''Event term '' @ term_name @
                 '' has mode interval but interval_range_s is not specified.''))) \<and>
     (mode t = ''reset'' \<and> min_step_count_between_reset t < 0 \<longrightarrow>
        prepare_term rand resolve term_name t st =
          Inl (ValueError (''Event term '' @ term_name @
                 '' has mode reset but min_step_count_between_reset is negative.'')))"
  by (auto simp: prepare_term_def Let_def)

lemma prepare_loop_rejects:
  "(term_name, TermCfg t) \<in> set items \<Longrightarrow>
   (mode t = ''interval'' \<and> interval_range_s t = None) \<or>
   (mode t = ''reset'' \<and> min_step_count_between_reset t < 0) \<Longrightarrow>
     \<exists>err. prepare_loop rand resolve items st = Inl err"
proof (induction rand resolve items st rule: prepare_loop.induct)
  case (4 rand resolve name' t' items st)
  show ?case
  proof (cases "prepare_term rand resolve name' t' st")
    case (Inl err)
    then show ?thesis by simp
  next
    case (Inr st')
    with prepare_term_rejects [of t' rand resolve name' st] "4.prems"
    have "(term_name, TermCfg t) \<in> set items" by auto
    with "4.IH" [OF Inr] "4.prems"(2) Inr show ?thesis by simp
  qed
qed auto

text \<open>
  Claim C7. Let a term have mode \<^verbatim>\<open>"interval"\<close> and no \<^verbatim>\<open>interval_range_s\<close>, or mode
  \<^verbatim>\<open>"reset"\<close> and a negative \<^verbatim>\<open>min_step_count_between_reset\<close>. Whenever the
  configuration holds that term, preparation raises: the constructor returns no manager, so
  there is none on which \<^verbatim>\<open>apply\<close> could be called. And when the entries before the
  term are accepted and the resolver of the base class accepts the term, the error raised is
  the \<^verbatim>\<open>ValueError\<close> of that term.
\<close>

theorem prepare_terms_rejects:
  assumes "(mode t = ''interval'' \<and> interval_range_s t = None) \<or>
           (mode t = ''reset'' \<and> min_step_count_between_reset t < 0)"
  shows "((term_name, TermCfg t) \<in> set cfg_items \<longrightarrow>
            (\<exists>err. prepare_terms rand resolve n cfg_items = Inl err)) \<and>
         (prepare_terms rand resolve n before = Inr st \<and> resolve term_name t = None \<longrightarrow>
            prepare_terms rand resolve n (before @ (term_name, TermCfg t) # after) =
              Inl (ValueError (''Event term '' @ term_name @
                (if mode t = ''interval''
                 then '' has mode interval but interval_range_s is not specified.''
                 else '' has mode reset but min_step_count_between_reset is negative.''))))"
proof (intro conjI impI)
  assume "(term_name, TermCfg t) \<in> set cfg_items"
  then show "\<exists>err. prepare_terms rand resolve n cfg_items = Inl err"
    using prepare_loop_rejects [OF _ assms] by (simp add: prepare_terms_def)
next
  assume a: "prepare_terms rand resolve n before = Inr st \<and> resolve term_name t = None"
  then have "prepare_terms rand resolve n (before @ (term_name, TermCfg t) # after) =
      (case prepare_term rand resolve term_name t st of
         Inl err \<Rightarrow> Inl err | Inr st' \<Rightarrow> prepare_loop rand resolve after st')"
    by (simp add: prepare_terms_def prepare_loop_append)
  with a assms prepare_term_rejects_ValueError [of resolve term_name t rand st]
  show "prepare_terms rand resolve n (before @ (term_name, TermCfg t) # after) =
      Inl (ValueError (''Event term '' @ term_name @
        (if mode t = ''interval''
         then '' has mode interval but interval_range_s is not specified.''
         else '' has mode reset but min_step_count_between_reset is negative.'')))"
    by auto
qed

theorem prepare_terms_rejects_witness:
  "(mode (interval_term_example 0 0 False\<lparr>interval_range_s := None\<rparr>) = ''interval'' \<and>
    interval_range_s (interval_term_example 0 0 False\<lparr>interval_range_s := None\<rparr>) = None) \<and>
   (''push'', TermCfg (interval_term_example 0 0 False\<lparr>interval_range_s := None\<rparr>))
      \<in> set [(''reset_base'', TermCfg (reset_term_example 10)),
              (''push'', TermCfg (interval_term_example 0 0 False\<lparr>interval_range_s := None\<rparr>))] \<and>
   (\<exists>err. prepare_terms rand0 resolve_ok 3
             [(''reset_base'', TermCfg (reset_term_example 10)),
              (''push'', TermCfg (interval_term_example 0 0 False\<lparr>interval_range_s := None\<rparr>))] = Inl err) \<and>
   prepare_terms rand0 resolve_ok 3 [(''reset_base'', TermCfg (reset_term_example 10))] =
     Inr (reset_manager_example 10) \<and>
   resolve_ok ''reset_again'' (reset_term_example (- 1)) = None \<and>
   (mode (reset_term_example (- 1)) = ''reset'' \<and>
    min_step_count_between_reset (reset_term_example (- 1)) < 0) \<and>
   prepare_terms rand0 resolve_ok 3
     ([(''reset_base'', TermCfg (reset_term_example 10))] @
      (''reset_again'', TermCfg (reset_term_example (- 1))) # []) =
     Inl (ValueError (''Event term '' @ ''reset_again'' @
            '' has mode reset but min_step_count_between_reset is negative.''))"
proof -
  let ?t = "interval_term_example 0 0 False\<lparr>interval_range_s := None\<rparr>"
  have h1: "(mode ?t = ''interval'' \<and> interval_range_s ?t = None) \<or>
            (mode ?t = ''reset'' \<and> min_step_count_between_reset ?t < 0)"
    by (simp add: interval_term_example_def)
  have h2: "(mode (reset_term_example (- 1)) = ''interval'' \<and>
             interval_range_s (reset_term_example (- 1)) = None) \<or>
            (mode (reset_term_example (- 1)) = ''reset'' \<and>
             min_step_count_between_reset (reset_term_example (- 1)) < 0)"
    by (simp add: reset_term_example_def)
  have p: "prepare_terms rand0 resolve_ok 3 [(''reset_base'', TermCfg (reset_term_example 10))] =
      Inr (reset_manager_example 10)"
    by (simp add: reset_manager_example_prepared)
  have r: "resolve_ok ''reset_again'' (reset_term_example (- 1)) = None"
    by (simp add: resolve_ok_def)
  from prepare_terms_rejects [OF h1, of "''push''"
      "[(''reset_base'', TermCfg (reset_term_example 10)), (''push'', TermCfg ?t)]" rand0 resolve_ok 3]
  have c1: "\<exists>err. prepare_terms rand0 resolve_ok 3
      [(''reset_base'', TermCfg (reset_term_example 10)), (''push'', TermCfg ?t)] = Inl err"
    by simp
  from prepare_terms_rejects [OF h2, of "''reset_again''" _ rand0 resolve_ok 3
      "[(''reset_base'', TermCfg (reset_term_example 10))]" "reset_manager_example 10" "[]"] p r
  have c2: "prepare_terms rand0 resolve_ok 3
     ([(''reset_base'', TermCfg (reset_term_example 10))] @
      (''reset_again'', TermCfg (reset_term_example (- 1))) # []) =
     Inl (ValueError (''Event term '' @ ''reset_again'' @
            '' has mode reset but min_step_count_between_reset is negative.''))"
    by (simp add: reset_term_example_def)
  show ?thesis
    using c1 c2 p r by (simp add: interval_term_example_def reset_term_example_def)
qed

section \<open>Disabled terms\<close>

lemma prepare_loop_skips_None:
  "prepare_loop rand resolve (filter (\<lambda>(term_name, v). v \<noteq> NoneCfg) items) st =
     prepare_loop rand resolve items st"
  by (induction rand resolve items st rule: prepare_loop.induct) (auto split: sum.splits)

lemma dict_append_names:
  "set (concat (map snd (dict_append d k v))) \<subseteq> insert v (set (concat (map snd d)))"
  by (induction d) (auto simp: dict_append_def split: if_splits)

lemma add_mode_names:
  "set (concat (map snd (mode_term_names (add_mode md st)))) =
     set (concat (map snd (mode_term_names st)))"
  by (simp add: add_mode_def)

lemma add_term_names:
  "set (concat (map snd (mode_term_names (add_term term_name t st)))) \<subseteq>
     insert term_name (set (concat (map snd (mode_term_names st))))"
  using dict_append_names [of "mode_term_names st" "mode t" term_name]
  by (simp add: add_term_def Let_def)

lemma prepare_term_names:
  assumes "prepare_term rand resolve term_name t st = Inr st'"
  shows "set (concat (map snd (mode_term_names st'))) \<subseteq>
           insert term_name (set (concat (map snd (mode_term_names st))))"
proof -
  have "mode_term_names (warn_min_step_count term_name t st) = mode_term_names st"
    by (simp add: warn_min_step_count_def)
  then show ?thesis
    using prepare_term_names_cfgs(1) [OF assms]
      add_term_names [of term_name t "add_mode (mode t) (warn_min_step_count term_name t st)"]
      add_mode_names [of "mode t" "warn_min_step_count term_name t st"]
    by simp
qed

lemma prepare_loop_names:
  "prepare_loop rand resolve items st = Inr st' \<Longrightarrow>
     set (concat (map snd (mode_term_names st'))) \<subseteq>
       set (concat (map snd (mode_term_names st))) \<union>
       {term_name. \<exists>t. (term_name, TermCfg t) \<in> set items}"
proof (induction rand resolve items st rule: prepare_loop.induct)
  case (1 rand resolve st)
  then show ?case by simp
next
  case (2 rand resolve term_name items st)
  then show ?case by auto
next
  case (3 rand resolve term_name items st)
  then show ?case by simp
next
  case (4 rand resolve term_name t items st)
  from "4.prems" obtain st1 where
    p: "prepare_term rand resolve term_name t st = Inr st1" and
    l: "prepare_loop rand resolve items st1 = Inr st'"
    by (auto split: sum.splits)
  have "{n. \<exists>u. (n, TermCfg u) \<in> set ((term_name, TermCfg t) # items)} =
      insert term_name {n. \<exists>u. (n, TermCfg u) \<in> set items}"
    by auto
  with "4.IH" [OF p l] prepare_term_names [OF p] show ?case by blast
qed

lemma prepare_term_buffers:
  assumes "prepare_term rand resolve term_name t st = Inr st'"
  shows "length (interval_term_time_left st') =
           length (interval_term_time_left st) + (if mode t = ''interval'' then 1 else 0)"
    and "length (reset_term_last_triggered_step_id st') =
           length (reset_term_last_triggered_step_id st) + (if mode t = ''reset'' then 1 else 0)"
proof -
  have "interval_term_time_left (add_term term_name t (add_mode (mode t) (warn_min_step_count term_name t st)))
      = interval_term_time_left st"
    and "reset_term_last_triggered_step_id (add_term term_name t (add_mode (mode t) (warn_min_step_count term_name t st)))
      = reset_term_last_triggered_step_id st"
    by (simp_all add: add_term_def add_mode_def warn_min_step_count_def Let_def)
  with assms show "length (interval_term_time_left st') =
           length (interval_term_time_left st) + (if mode t = ''interval'' then 1 else 0)"
    and "length (reset_term_last_triggered_step_id st') =
           length (reset_term_last_triggered_step_id st) + (if mode t = ''reset'' then 1 else 0)"
    unfolding prepare_term_def Let_def
    by (auto split: option.splits if_splits prod.splits)
qed

lemma prepare_loop_buffers:
  "prepare_loop rand resolve items st = Inr st' \<Longrightarrow>
     length (interval_term_time_left st') =
       length (interval_term_time_left st) + length (filter (is_term_of_mode ''interval'') items) \<and>
     length (reset_term_last_triggered_step_id st') =
       length (reset_term_last_triggered_step_id st) + length (filter (is_term_of_mode ''reset'') items)"
proof (induction rand resolve items st rule: prepare_loop.induct)
  case (1 rand resolve st)
  then show ?case by simp
next
  case (2 rand resolve term_name items st)
  then show ?case by (simp add: is_term_of_mode_def)
next
  case (3 rand resolve term_name items st)
  then show ?case by simp
next
  case (4 rand resolve term_name t items st)
  from "4.prems" obtain st1 where
    p: "prepare_term rand resolve term_name t st = Inr st1" and
    l: "prepare_loop rand resolve items st1 = Inr st'"
    by (auto split: sum.splits)
  from "4.IH" [OF p l] prepare_term_buffers [OF p] show ?case
    by (simp add: is_term_of_mode_def)
qed

text \<open>
  Claim C8. An entry of the configuration whose value is \<^verbatim>\<open>None\<close> is skipped:
  preparation returns exactly what it returns on the configuration without such entries
  (the same manager, or the same error), so nothing that \<^verbatim>\<open>apply\<close> later does depends
  on the entry. In the manager there is one interval buffer for each entry that is a term
  of mode \<^verbatim>\<open>"interval"\<close> and one last-triggered-step buffer for each entry that is a term
  of mode \<^verbatim>\<open>"reset"\<close>, none for a \<^verbatim>\<open>None\<close> entry; and, the keys of a dictionary or of
  an object's attributes being distinct, the name of a \<^verbatim>\<open>None\<close> entry is in no list of
  \<^verbatim>\<open>active_terms\<close>.
\<close>

theorem prepare_terms_skips_None:
  "prepare_terms rand resolve n cfg_items =
     prepare_terms rand resolve n (filter (\<lambda>(term_name, v). v \<noteq> NoneCfg) cfg_items) \<and>
   (prepare_terms rand resolve n cfg_items = Inr st \<longrightarrow>
      length (interval_term_time_left st) = length (filter (is_term_of_mode ''interval'') cfg_items) \<and>
      length (reset_term_last_triggered_step_id st) = length (filter (is_term_of_mode ''reset'') cfg_items) \<and>
      (distinct (map fst cfg_items) \<and> (term_name, NoneCfg) \<in> set cfg_items \<longrightarrow>
         term_name \<notin> set (concat (map snd (active_terms st)))))"
proof (intro conjI impI)
  show "prepare_terms rand resolve n cfg_items =
     prepare_terms rand resolve n (filter (\<lambda>(term_name, v). v \<noteq> NoneCfg) cfg_items)"
    by (simp add: prepare_terms_def prepare_loop_skips_None)
next
  assume "prepare_terms rand resolve n cfg_items = Inr st"
  then show "length (interval_term_time_left st) = length (filter (is_term_of_mode ''interval'') cfg_items)"
    using prepare_loop_buffers [of rand resolve cfg_items "empty_manager n" st]
    by (simp add: prepare_terms_def empty_manager_def)
next
  assume "prepare_terms rand resolve n cfg_items = Inr st"
  then show "length (reset_term_last_triggered_step_id st) = length (filter (is_term_of_mode ''reset'') cfg_items)"
    using prepare_loop_buffers [of rand resolve cfg_items "empty_manager n" st]
    by (simp add: prepare_terms_def empty_manager_def)
next
  assume p: "prepare_terms rand resolve n cfg_items = Inr st"
    and d: "distinct (map fst cfg_items) \<and> (term_name, NoneCfg) \<in> set cfg_items"
  from d have "\<And>t. (term_name, TermCfg t) \<notin> set cfg_items"
    by (metis cfg_value.distinct(1) eq_key_imp_eq_value)
  with p prepare_loop_names [of rand resolve cfg_items "empty_manager n" st]
  show "term_name \<notin> set (concat (map snd (active_terms st)))"
    by (auto simp: prepare_terms_def empty_manager_def active_terms_def)
qed

theorem prepare_terms_skips_None_witness:
  "prepare_terms rand0 resolve_ok 3
     [(''push'', NoneCfg), (''reset_base'', TermCfg (reset_term_example 10))] =
   prepare_terms rand0 resolve_ok 3
     (filter (\<lambda>(term_name, v). v \<noteq> NoneCfg)
        [(''push'', NoneCfg), (''reset_base'', TermCfg (reset_term_example 10))]) \<and>
   prepare_terms rand0 resolve_ok 3
     [(''push'', NoneCfg), (''reset_base'', TermCfg (reset_term_example 10))] =
     Inr (reset_manager_example 10) \<and>
   length (interval_term_time_left (reset_manager_example 10)) = 0 \<and>
   length (reset_term_last_triggered_step_id (reset_manager_example 10)) = 1 \<and>
   distinct (map fst [(''push'', NoneCfg), (''reset_base'', TermCfg (reset_term_example 10))]) \<and>
   (''push'', NoneCfg) \<in> set [(''push'', NoneCfg), (''reset_base'', TermCfg (reset_term_example 10))] \<and>
   ''push'' \<notin> set (concat (map snd (active_terms (reset_manager_example 10))))"
proof -
  let ?cfg = "[(''push'', NoneCfg), (''reset_base'', TermCfg (reset_term_example 10))]"
  have p: "prepare_terms rand0 resolve_ok 3 ?cfg = Inr (reset_manager_example 10)"
    using reset_manager_example_prepared [of 10] by (simp add: prepare_terms_def)
  have d: "distinct (map fst ?cfg) \<and> (''push'', NoneCfg) \<in> set ?cfg"
    by simp
  have f: "length (filter (is_term_of_mode ''interval'') ?cfg) = 0 \<and>
           length (filter (is_term_of_mode ''reset'') ?cfg) = 1"
    by (simp add: is_term_of_mode_def reset_term_example_def)
  show ?thesis
    using p d f
      prepare_terms_skips_None [of rand0 resolve_ok 3 ?cfg "reset_manager_example 10" "''push''"]
    by simp
qed

section \<open>Interval terms that time each environment on its own\<close>

lemma set_nonzero: "set (nonzero bs) = {i. i < length bs \<and> bs ! i}"
  by (auto simp: nonzero_def)


lemma sorted_nonzero: "sorted (nonzero bs)"
  by (simp add: nonzero_def sorted_wrt_filter)


lemma length_nonzero: "length (nonzero bs) \<le> length bs"
  using length_filter_le [of "\<lambda>i. bs ! i" "[0..<length bs]"] by (simp add: nonzero_def)









section \<open>The variable env_ids across the terms of one call\<close>

lemma index_fill_Nil: "index_fill t [] v = t"
  by (simp add: index_fill_def)

lemma interval_per_env_step:
  assumes "\<not> is_global_time t" and "interval_range_s t = Some (lower, upper)"
    and "index < length (interval_term_time_left st)"
  shows "apply_terms rand ''interval'' (Some dt) g (t # ts) index env_ids st =
           apply_terms rand ''interval'' (Some dt) g ts (Suc index)
             (Some (nonzero (map (\<lambda>x. x \<le> 0) (map (\<lambda>x. x - dt) (interval_term_time_left st ! index)))))
             (st\<lparr>interval_term_time_left := (interval_term_time_left st)
                   [index := index_put (map (\<lambda>x. x - dt) (interval_term_time_left st ! index))
                      (nonzero (map (\<lambda>x. x \<le> 0) (map (\<lambda>x. x - dt) (interval_term_time_left st ! index))))
                      (sample_interval rand (rng_pos st)
                         (length (nonzero (map (\<lambda>x. x \<le> 0)
                            (map (\<lambda>x. x - dt) (interval_term_time_left st ! index)))))
                         lower upper)],
                 rng_pos := rng_pos st + length (nonzero (map (\<lambda>x. x \<le> 0)
                            (map (\<lambda>x. x - dt) (interval_term_time_left st ! index)))),
                 calls := calls st @
                   (if nonzero (map (\<lambda>x. x \<le> 0) (map (\<lambda>x. x - dt) (interval_term_time_left st ! index))) = []
                    then []
                    else [(func t,
                           Some (nonzero (map (\<lambda>x. x \<le> 0)
                                   (map (\<lambda>x. x - dt) (interval_term_time_left st ! index)))),
                           params t)])\<rparr>)"
proof -
  define time_left where "time_left = map (\<lambda>x. x - dt) (interval_term_time_left st ! index)"
  define fired where "fired = nonzero (map (\<lambda>x. x \<le> 0) time_left)"
  show ?thesis
  proof (cases "fired = []")
    case True
    then have "index_put time_left fired
        (sample_interval rand (rng_pos st) (length fired) lower upper) = time_left"
      by (simp add: index_put_def sample_interval_def)
    with True assms show ?thesis
      unfolding time_left_def [symmetric] fired_def [symmetric]
      by (simp add: gate_term_def gate_interval_def Let_def fired_def [symmetric]
          time_left_def [symmetric])
  next
    case False
    with assms show ?thesis
      unfolding time_left_def [symmetric] fired_def [symmetric]
      by (simp add: gate_term_def gate_interval_def Let_def fired_def [symmetric]
          time_left_def [symmetric] call_term_def)
  qed
qed

lemma wrap_int32_id: "fits_int32 x \<Longrightarrow> wrap_int32 x = x"
  by (simp add: fits_int32_def wrap_int32_def)

lemma fits_wrap_int32: "fits_int32 (wrap_int32 x)"
proof -
  have "0 \<le> (x + 2147483648) mod 4294967296" and "(x + 2147483648) mod 4294967296 < 4294967296"
    by simp_all
  then show ?thesis by (simp add: fits_int32_def wrap_int32_def)
qed

lemma reset_gated_step:
  fixes g :: int and st :: EventManager and index :: nat and env_ids :: env_ids
    and t :: EventTermCfg
  defines "last_step \<equiv> reset_term_last_triggered_step_id st ! index"
  defines "selected \<equiv> (case env_ids of None \<Rightarrow> map (\<lambda>l. wrap_int32 (g - l)) last_step
                        | Some ids \<Rightarrow> map (\<lambda>i. map (\<lambda>l. wrap_int32 (g - l)) last_step ! i) ids)"
  defines "fired \<equiv> nonzero (map (\<lambda>s. min_step_count_between_reset t \<le> s) selected)"
  assumes "min_step_count_between_reset t \<noteq> 0"
    and "index < length (reset_term_last_triggered_step_id st)"
    and "case env_ids of None \<Rightarrow> True
         | Some ids \<Rightarrow> list_all (\<lambda>i. i < length last_step) ids \<and> length ids \<le> length last_step"
    and "fits_int32 g"
  shows "apply_terms rand ''reset'' dt (Some g) (t # ts) index env_ids st =
           apply_terms rand ''reset'' dt (Some g) ts (Suc index) (Some fired)
             (st\<lparr>reset_term_last_triggered_step_id := (reset_term_last_triggered_step_id st)
                   [index := index_fill last_step fired g],
                 calls := calls st @ (if fired = [] then [] else [(func t, Some fired, params t)])\<rparr>)"
proof -
  have sel: "(case env_ids of None \<Rightarrow> Inr (map (\<lambda>l. wrap_int32 (g - l)) last_step)
              | Some ids \<Rightarrow> index_select (map (\<lambda>l. wrap_int32 (g - l)) last_step) ids) =
             Inr selected"
    using assms(6) by (cases env_ids) (simp_all add: selected_def index_select_def)
  have "length selected \<le> length last_step"
    using assms(6) by (cases env_ids) (simp_all add: selected_def)
  then have "\<forall>i \<in> set fired. i < length last_step"
    using set_nonzero [of "map (\<lambda>s. min_step_count_between_reset t \<le> s) selected"]
    by (auto simp: fired_def)
  then have rng: "list_all (\<lambda>i. i < length last_step) fired"
    by (simp add: list_all_iff)
  have gate: "gate_reset g index t env_ids st =
      (if fired = [] then Skip (Some fired) st
       else Fire (Some fired)
              (st\<lparr>reset_term_last_triggered_step_id := (reset_term_last_triggered_step_id st)
                    [index := index_fill last_step fired g]\<rparr>))"
    using assms(4,5,7) sel rng
    unfolding gate_reset_def Let_def last_step_def fired_def
    by simp
  show ?thesis
  proof (cases "fired = []")
    case True
    with gate show ?thesis
      by (simp add: gate_term_def index_fill_Nil last_step_def)
  next
    case False
    with gate show ?thesis
      by (simp add: gate_term_def call_term_def)
  qed
qed

text \<open>
  Claim C10. \<^verbatim>\<open>env_ids\<close> is one variable of the call, not re-read from the caller's
  argument for each term. When the loop, with any value of \<^verbatim>\<open>env_ids\<close>, reaches a reset
  term with a non-zero \<^verbatim>\<open>min_step_count_between_reset\<close> (and the indexing of line 209
  does not raise), or an interval term that times each environment on its own, the rest of
  the loop runs exactly as it would on the remaining terms with \<^verbatim>\<open>env_ids\<close> set to the
  subset that this term's gating computed (the empty subset included, when the term is
  skipped): every later term is gated and called from that value, not from the caller's.

  For the reset term the global step count, the minimum step count and the entries of the
  \<^verbatim>\<open>int32\<close> buffer are 32-bit values (the entries of every prepared manager are, and
  \<^verbatim>\<open>apply\<close> keeps them so: \<open>prepare_terms_int32_buffers\<close>, \<open>int32_buffers_apply_mode\<close>),
  and the elapsed steps are the 32-bit difference of line 207.
\<close>

theorem apply_terms_rebinds_env_ids:
  fixes g :: int and dt :: real and st :: EventManager and index :: nat and env_ids :: env_ids
    and t :: EventTermCfg and rand :: "nat \<Rightarrow> real" and lower upper :: real
  defines "last_step \<equiv> reset_term_last_triggered_step_id st ! index"
  defines "selected \<equiv> (case env_ids of None \<Rightarrow> map (\<lambda>l. wrap_int32 (g - l)) last_step
                        | Some ids \<Rightarrow> map (\<lambda>i. map (\<lambda>l. wrap_int32 (g - l)) last_step ! i) ids)"
  defines "fired_reset \<equiv> nonzero (map (\<lambda>s. min_step_count_between_reset t \<le> s) selected)"
  defines "time_left \<equiv> map (\<lambda>x. x - dt) (interval_term_time_left st ! index)"
  defines "fired_interval \<equiv> nonzero (map (\<lambda>x. x \<le> 0) time_left)"
  shows "(min_step_count_between_reset t \<noteq> 0 \<and>
          fits_int32 (min_step_count_between_reset t) \<and>
          fits_int32 g \<and>
          index < length (reset_term_last_triggered_step_id st) \<and>
          list_all fits_int32 last_step \<and>
          (case env_ids of None \<Rightarrow> True
           | Some ids \<Rightarrow> list_all (\<lambda>i. i < length last_step) ids \<and> length ids \<le> length last_step) \<longrightarrow>
            apply_terms rand ''reset'' dt_opt (Some g) (t # ts) index env_ids st =
              apply_terms rand ''reset'' dt_opt (Some g) ts (Suc index) (Some fired_reset)
                (st\<lparr>reset_term_last_triggered_step_id := (reset_term_last_triggered_step_id st)
                      [index := index_fill last_step fired_reset g],
                    calls := calls st @
                      (if fired_reset = [] then [] else [(func t, Some fired_reset, params t)])\<rparr>)) \<and>
         (\<not> is_global_time t \<and> interval_range_s t = Some (lower, upper) \<and>
          index < length (interval_term_time_left st) \<longrightarrow>
            apply_terms rand ''interval'' (Some dt) g_opt (t # ts) index env_ids st =
              apply_terms rand ''interval'' (Some dt) g_opt ts (Suc index) (Some fired_interval)
                (st\<lparr>interval_term_time_left := (interval_term_time_left st)
                      [index := index_put time_left fired_interval
                         (sample_interval rand (rng_pos st) (length fired_interval) lower upper)],
                    rng_pos := rng_pos st + length fired_interval,
                    calls := calls st @
                      (if fired_interval = [] then []
                       else [(func t, Some fired_interval, params t)])\<rparr>))"
  unfolding last_step_def selected_def fired_reset_def time_left_def fired_interval_def
  using reset_gated_step [of t index st env_ids g rand dt_opt ts]
    interval_per_env_step [of t lower upper index st rand dt g_opt ts env_ids]
  by blast

theorem apply_terms_rebinds_env_ids_witness:
  "min_step_count_between_reset (reset_term_example 10) \<noteq> 0 \<and>
   fits_int32 (min_step_count_between_reset (reset_term_example 10)) \<and>
   fits_int32 10 \<and>
   0 < length (reset_term_last_triggered_step_id two_reset_manager_example) \<and>
   list_all fits_int32 (reset_term_last_triggered_step_id two_reset_manager_example ! 0) \<and>
   apply_terms rand0 ''reset'' None (Some 10)
       [reset_term_example 10, (reset_term_example 0)\<lparr>func := ''reset_joints''\<rparr>] 0 None
       two_reset_manager_example =
     (None, two_reset_manager_example
        \<lparr>reset_term_last_triggered_step_id := [[10, 5, 10], [10, 10, 10]],
         calls := [(''reset_root_state'', Some [0, 2], []), (''reset_joints'', Some [0, 2], [])]\<rparr>) \<and>
   \<not> is_global_time (interval_term_example 1 1 False) \<and>
   interval_range_s (interval_term_example 1 1 False) = Some (1, 1) \<and>
   0 < length (interval_term_time_left mixed_manager_example) \<and>
   apply_terms rand0 ''interval'' (Some (1 / 2)) None [interval_term_example 1 1 False] 0
       (Some [0]) mixed_manager_example =
     (None, mixed_manager_example
        \<lparr>interval_term_time_left := [[1 / 2, 1]], rng_pos := 3,
         calls := [(''push_robot'', Some [1], [])]\<rparr>)"
proof -
  have r: "apply_terms rand0 ''reset'' None (Some 10)
       [reset_term_example 10, (reset_term_example 0)\<lparr>func := ''reset_joints''\<rparr>] 0 None
       two_reset_manager_example =
     (None, two_reset_manager_example
        \<lparr>reset_term_last_triggered_step_id := [[10, 5, 10], [10, 10, 10]],
         calls := [(''reset_root_state'', Some [0, 2], []), (''reset_joints'', Some [0, 2], [])]\<rparr>)"
    using apply_terms_rebinds_env_ids [where t = "reset_term_example 10" and index = 0
        and st = two_reset_manager_example and env_ids = None and g = 10 and rand = rand0
        and dt_opt = None and ts = "[(reset_term_example 0)\<lparr>func := ''reset_joints''\<rparr>]"]
    by (simp add: two_reset_manager_example_def reset_term_example_def gate_term_def
        gate_reset_def nonzero_def index_fill_def call_term_def fits_int32_def wrap_int32_def)
  have i: "apply_terms rand0 ''interval'' (Some (1 / 2)) None [interval_term_example 1 1 False] 0
       (Some [0]) mixed_manager_example =
     (None, mixed_manager_example
        \<lparr>interval_term_time_left := [[1 / 2, 1]], rng_pos := 3,
         calls := [(''push_robot'', Some [1], [])]\<rparr>)"
    using apply_terms_rebinds_env_ids [where t = "interval_term_example 1 1 False" and index = 0
        and st = mixed_manager_example and env_ids = "Some [0]" and lower = 1 and upper = 1
        and rand = rand0 and dt = "1 / 2" and g_opt = None and ts = "[]"]
    by (simp add: interval_term_example_def mixed_manager_example_def nonzero_def index_put_def
        sample_interval_def rand0_def)
  show ?thesis
    using r i
    by (simp add: reset_term_example_def interval_term_example_def two_reset_manager_example_def
        mixed_manager_example_def fits_int32_def)
qed

section \<open>An interval term with a fixed period\<close>










lemma one_second_two_calls:
  "calls (snd (apply_mode rand0 (snd (apply_mode rand0 one_second_manager_example
      ''interval'' None (Some (1 / 2)) None)) ''interval'' None (Some (1 / 2)) None)) =
     [(''push_robot'', None, [])] \<and>
   calls (snd (apply_mode rand0 one_second_manager_example
      ''interval'' None (Some (1 / 2)) None)) = []"
  by (simp add: apply_defs one_second_manager_example_def interval_term_example_def rand0_def)

section \<open>Reset gating in general\<close>

lemma length_index_fill: "length (index_fill t ids v) = length t"
  unfolding index_fill_def by (induction ids arbitrary: t) auto

lemma index_fill_nth:
  "i < length t \<Longrightarrow> index_fill t ids v ! i = (if i \<in> set ids then v else t ! i)"
  unfolding index_fill_def
proof (induction ids arbitrary: t)
  case Nil
  then show ?case by simp
next
  case (Cons a ids)
  from Cons.prems have "i < length (t[a := v])" by simp
  from Cons.IH [OF this] Cons.prems show ?case
    by (cases "i = a") auto
qed

text \<open>
  Where the code and claim C1 agree: when the loop reaches a gated reset term with
  \<^verbatim>\<open>env_ids = None\<close>, the positions of line 209 are the environment indices. With a
  global step count that fits 32 bits, and no elapsed-steps difference that overflows them,
  the term fires for exactly the environments whose elapsed steps reach the minimum,
  exactly their entries are stamped with the global step count, and the term is called only
  when there is such an environment.
\<close>

lemma reset_gated_all_envs:
  fixes g :: int and st :: EventManager and index :: nat and t :: EventTermCfg
  defines "last_step \<equiv> reset_term_last_triggered_step_id st ! index"
  defines "fired \<equiv> nonzero (map (\<lambda>s. min_step_count_between_reset t \<le> s)
                             (map (\<lambda>l. wrap_int32 (g - l)) last_step))"
  defines "stamped \<equiv> index_fill last_step fired g"
  assumes "min_step_count_between_reset t \<noteq> 0"
    and "index < length (reset_term_last_triggered_step_id st)"
    and "fits_int32 g"
    and "list_all (\<lambda>l. fits_int32 (g - l)) last_step"
  shows "apply_terms rand ''reset'' dt (Some g) (t # ts) index None st =
           apply_terms rand ''reset'' dt (Some g) ts (Suc index) (Some fired)
             (st\<lparr>reset_term_last_triggered_step_id :=
                   (reset_term_last_triggered_step_id st)[index := stamped],
                 calls := calls st @ (if fired = [] then [] else [(func t, Some fired, params t)])\<rparr>) \<and>
         set fired = {i. i < length last_step \<and>
                         min_step_count_between_reset t \<le> g - last_step ! i} \<and>
         length stamped = length last_step \<and>
         (\<forall>i < length last_step.
            stamped ! i = (if min_step_count_between_reset t \<le> g - last_step ! i then g
                           else last_step ! i))"
proof (intro conjI)
  have w: "wrap_int32 (g - last_step ! i) = g - last_step ! i" if "i < length last_step" for i
    using assms(7) that by (simp add: list_all_length wrap_int32_id)
  show "apply_terms rand ''reset'' dt (Some g) (t # ts) index None st =
           apply_terms rand ''reset'' dt (Some g) ts (Suc index) (Some fired)
             (st\<lparr>reset_term_last_triggered_step_id :=
                   (reset_term_last_triggered_step_id st)[index := stamped],
                 calls := calls st @ (if fired = [] then [] else [(func t, Some fired, params t)])\<rparr>)"
    using reset_gated_step [of t index st None g rand dt ts] assms(4,5,6)
    by (simp add: fired_def stamped_def last_step_def)
  show f: "set fired = {i. i < length last_step \<and>
                         min_step_count_between_reset t \<le> g - last_step ! i}"
    using w by (auto simp: fired_def set_nonzero)
  show "length stamped = length last_step"
    by (simp add: stamped_def length_index_fill)
  show "\<forall>i < length last_step.
            stamped ! i = (if min_step_count_between_reset t \<le> g - last_step ! i then g
                           else last_step ! i)"
    using f by (simp add: stamped_def index_fill_nth)
qed

text \<open>
  What the code does for claim C4 in general: an ungated reset term, at a global step
  count that fits 32 bits, is called with \<^verbatim>\<open>env_ids\<close> as the loop has it, and every entry
  of its buffer is stamped.
\<close>

lemma reset_ungated_step:
  assumes "min_step_count_between_reset t = 0"
    and "index < length (reset_term_last_triggered_step_id st)"
    and "fits_int32 g"
  shows "apply_terms rand ''reset'' dt (Some g) (t # ts) index env_ids st =
           apply_terms rand ''reset'' dt (Some g) ts (Suc index) env_ids
             (st\<lparr>reset_term_last_triggered_step_id := (reset_term_last_triggered_step_id st)
                   [index := replicate (length (reset_term_last_triggered_step_id st ! index)) g],
                 calls := calls st @ [(func t, env_ids, params t)]\<rparr>)"
  using assms
  by (simp add: gate_term_def gate_reset_def call_term_def map_replicate_const)

section \<open>The 32-bit buffer at its limits\<close>

text \<open>
  At the global step count \<open>2^31\<close> the difference of line 207 wraps to \<open>- 2^31\<close>, so a
  gated term that never fired does not fire, and nothing is called or stamped; an ungated
  term raises at line 199 and nothing is called or stamped. With four indices for three
  environments all of which pass the test, line 212 stamps the three entries and raises at
  position 3, before the term is called.
\<close>

lemma reset_gated_wraps:
  "apply_mode rand0 (reset_manager_example 10) ''reset'' None None (Some 2147483648) =
     (None, reset_manager_example 10)"
  by (simp add: apply_defs reset_manager_example_def reset_term_example_def)

lemma reset_ungated_overflows:
  "apply_mode rand0 (reset_manager_example 0) ''reset'' None None (Some 2147483648) =
     (Some (RuntimeError ''value cannot be converted to type int32 without overflow''),
      reset_manager_example 0)"
  by (simp add: apply_defs reset_manager_example_def reset_term_example_def)

lemma reset_gated_position_past_end:
  "apply_mode rand0 (reset_manager_example 10) ''reset'' (Some [0, 0, 0, 0]) None (Some 10) =
     (Some IndexError,
      (reset_manager_example 10)\<lparr>reset_term_last_triggered_step_id := [[10, 10, 10]]\<rparr>)"
  by (simp add: apply_defs reset_manager_example_def reset_term_example_def)

section \<open>The buffer holds 32-bit values\<close>

text \<open>
  Preparation fills the buffers with zeros, and lines 199 and 212 write a step count only
  after it has been converted to \<^verbatim>\<open>int32\<close>: the entries of a manager's buffers are 32-bit
  values from preparation on.
\<close>

lemma list_all_update: "list_all P xs \<Longrightarrow> P v \<Longrightarrow> list_all P (xs[i := v])"
  using set_update_subset_insert [of xs i v] by (auto simp: list_all_iff)

lemma list_all_index_fill: "list_all P xs \<Longrightarrow> P v \<Longrightarrow> list_all P (index_fill xs ids v)"
  unfolding index_fill_def
  by (induction ids arbitrary: xs) (simp_all add: list_all_update)

lemma list_all_nth: "list_all P xs \<Longrightarrow> i < length xs \<Longrightarrow> P (xs ! i)"
  by (simp add: list_all_length)

lemma int32_buffers_gate_reset:
  assumes "gate_reset g index t env_ids st = Raise err st' \<or>
           gate_reset g index t env_ids st = Skip e st' \<or>
           gate_reset g index t env_ids st = Fire e st'"
    and "int32_buffers st"
  shows "int32_buffers st'"
proof (cases "index < length (reset_term_last_triggered_step_id st) \<and> fits_int32 g")
  case True
  then have row: "list_all fits_int32 (reset_term_last_triggered_step_id st ! index)"
    using assms(2) by (simp add: int32_buffers_def list_all_nth)
  have upd: "int32_buffers (st\<lparr>reset_term_last_triggered_step_id :=
      (reset_term_last_triggered_step_id st)[index := row']\<rparr>)" if "list_all fits_int32 row'" for row'
    using assms(2) that by (simp add: int32_buffers_def list_all_update)
  have a: "int32_buffers (st\<lparr>reset_term_last_triggered_step_id := (reset_term_last_triggered_step_id st)
      [index := map (\<lambda>_. g) (reset_term_last_triggered_step_id st ! index)]\<rparr>)"
    using True by (intro upd) (simp add: list_all_iff)
  have b: "int32_buffers (st\<lparr>reset_term_last_triggered_step_id := (reset_term_last_triggered_step_id st)
      [index := index_fill (reset_term_last_triggered_step_id st ! index) ids g]\<rparr>)" for ids
    using True row by (intro upd) (simp add: list_all_index_fill)
  from assms(1) True a b assms(2) show ?thesis
    unfolding gate_reset_def Let_def
    by (auto split: if_splits sum.splits option.splits)
next
  case False
  with assms show ?thesis
    unfolding gate_reset_def Let_def
    by (auto split: if_splits sum.splits option.splits)
qed

lemma int32_buffers_gate_interval:
  assumes "gate_interval rand dt index t env_ids st = Raise err st' \<or>
           gate_interval rand dt index t env_ids st = Skip e st' \<or>
           gate_interval rand dt index t env_ids st = Fire e st'"
  shows "reset_term_last_triggered_step_id st' = reset_term_last_triggered_step_id st"
  using assms unfolding gate_interval_def Let_def
  by (auto split: if_splits list.splits option.splits prod.splits)

lemma int32_buffers_gate_term:
  assumes "gate_term rand md dt g index t env_ids st = Raise err st' \<or>
           gate_term rand md dt g index t env_ids st = Skip e st' \<or>
           gate_term rand md dt g index t env_ids st = Fire e st'"
    and "int32_buffers st"
  shows "int32_buffers st'"
proof (cases "md = ''interval''")
  case True
  with assms show ?thesis
    using int32_buffers_gate_interval [of rand _ index t env_ids st err st' e]
    by (cases dt) (auto simp: gate_term_def int32_buffers_def)
next
  case False
  with assms show ?thesis
    using int32_buffers_gate_reset [of _ index t env_ids st err st' e]
    by (cases g) (auto simp: gate_term_def split: if_splits)
qed

lemma int32_buffers_apply_terms:
  "apply_terms rand md dt g ts index env_ids st = (r, st') \<Longrightarrow> int32_buffers st \<Longrightarrow>
     int32_buffers st'"
proof (induction ts arbitrary: index env_ids st)
  case Nil
  then show ?case by simp
next
  case (Cons t ts)
  show ?case
  proof (cases "gate_term rand md dt g index t env_ids st")
    case (Raise err s)
    with Cons.prems int32_buffers_gate_term [of rand md dt g index t env_ids st err s]
    show ?thesis by auto
  next
    case (Skip e s)
    with Cons.prems have "apply_terms rand md dt g ts (Suc index) e s = (r, st')" by simp
    moreover have "int32_buffers s"
      using int32_buffers_gate_term [of rand md dt g index t env_ids st _ s e] Skip Cons.prems(2)
      by simp
    ultimately show ?thesis by (rule Cons.IH)
  next
    case (Fire e s)
    with Cons.prems have "apply_terms rand md dt g ts (Suc index) e (call_term t e s) = (r, st')"
      by simp
    moreover have "int32_buffers (call_term t e s)"
      using int32_buffers_gate_term [of rand md dt g index t env_ids st _ s e] Fire Cons.prems(2)
      by (simp add: call_term_def int32_buffers_def)
    ultimately show ?thesis by (rule Cons.IH)
  qed
qed

lemma int32_buffers_apply_mode:
  "apply_mode rand st md env_ids dt g = (r, st') \<Longrightarrow> int32_buffers st \<Longrightarrow> int32_buffers st'"
  using int32_buffers_apply_terms [of rand md dt g _ 0 env_ids st r st']
  by (auto simp: apply_mode_def int32_buffers_def split: if_splits option.splits)

lemma int32_buffers_prepare_term:
  assumes "prepare_term rand resolve term_name t st = Inr st'" and "int32_buffers st"
  shows "int32_buffers st'"
proof -
  have "reset_term_last_triggered_step_id
      (add_term term_name t (add_mode (mode t) (warn_min_step_count term_name t st))) =
      reset_term_last_triggered_step_id st"
    by (simp add: add_term_def add_mode_def warn_min_step_count_def Let_def)
  with assms show ?thesis
    unfolding prepare_term_def Let_def int32_buffers_def
    by (auto simp: fits_int32_def list_all_iff split: option.splits if_splits prod.splits)
qed

lemma int32_buffers_prepare_loop:
  "prepare_loop rand resolve items st = Inr st' \<Longrightarrow> int32_buffers st \<Longrightarrow> int32_buffers st'"
proof (induction rand resolve items st rule: prepare_loop.induct)
  case (4 rand resolve term_name t items st)
  then show ?case
    by (auto split: sum.splits dest: int32_buffers_prepare_term)
qed auto

lemma prepare_terms_int32_buffers:
  "prepare_terms rand resolve n cfg_items = Inr st \<Longrightarrow> int32_buffers st"
  using int32_buffers_prepare_loop [of rand resolve cfg_items "empty_manager n" st]
  by (simp add: prepare_terms_def int32_buffers_def empty_manager_def)

lemma int32_buffers_set_term_cfg:
  "set_term_cfg st term_name cfg = Inr st' \<Longrightarrow> int32_buffers st \<Longrightarrow> int32_buffers st'"
  by (auto simp: set_term_cfg_def int32_buffers_def split: option.splits if_splits)

end
